theory Spec2Isabelle
  imports Main "HOL-Library.Sublist"
begin

section \<open>Strings of the page module\<close>

text \<open>
  The module \<^verbatim>\<open>src/app/docs/[[...slug]]/page.tsx\<close> works on JavaScript strings with
  \<^verbatim>\<open>startsWith\<close>, \<^verbatim>\<open>endsWith\<close>, \<^verbatim>\<open>slice\<close>, \<^verbatim>\<open>split\<close>, \<^verbatim>\<open>join\<close> and a few regular
  expressions. A string is modelled as a \<^typ>\<open>string\<close>, a list of characters; a character
  stands for a code unit below 256. Every character the code tests for is an ASCII
  character.
\<close>

definition startsWith :: "string \<Rightarrow> string \<Rightarrow> bool" where
  "startsWith s p \<longleftrightarrow> prefix p s"

definition endsWith :: "string \<Rightarrow> string \<Rightarrow> bool" where
  "endsWith s p \<longleftrightarrow> suffix p s"

text \<open>\<^verbatim>\<open>s.includes(p)\<close> and an unanchored \<^verbatim>\<open>/p/.test(s)\<close> for a literal \<open>p\<close>.\<close>

definition includesStr :: "string \<Rightarrow> string \<Rightarrow> bool" where
  "includesStr s p \<longleftrightarrow> list_ex (\<lambda>t. prefix p t) (suffixes s)"

text \<open>\<^verbatim>\<open>s.slice(0, -n)\<close>: the string without its last \<open>n\<close> characters (empty when it is shorter).\<close>

definition sliceEnd :: "string \<Rightarrow> nat \<Rightarrow> string" where
  "sliceEnd s n = take (length s - n) s"

text \<open>
  \<^verbatim>\<open>s.split(sep)\<close> for a one-character separator: all the pieces between the separators.
  The result is never empty (\<^verbatim>\<open>"".split("#")\<close> is \<^verbatim>\<open>[""]\<close>).
\<close>

fun splitOn :: "char \<Rightarrow> string \<Rightarrow> string list" where
  "splitOn sep [] = [[]]"
| "splitOn sep (c # cs) =
     (if c = sep then [] # splitOn sep cs
      else (let ps = splitOn sep cs in (c # hd ps) # tl ps))"

text \<open>\<^verbatim>\<open>s.split(sep, limit)\<close> keeps the first \<open>limit\<close> pieces and drops the others.\<close>

definition jsSplit :: "string \<Rightarrow> char \<Rightarrow> nat \<Rightarrow> string list" where
  "jsSplit s sep limit = take limit (splitOn sep s)"

text \<open>
  The destructuring \<^verbatim>\<open>const [a, b = ""] = pieces\<close>: \<open>a\<close> is the first piece, \<open>b\<close> the second
  one, or the default \<^verbatim>\<open>""\<close> when there is none.
\<close>

definition firstPiece :: "string list \<Rightarrow> string" where
  "firstPiece ps = hd ps"

fun secondPiece :: "string list \<Rightarrow> string" where
  "secondPiece (a # b # ps) = b"
| "secondPiece ps = []"

text \<open>The pieces joined again by the separator, to state what \<open>splitOn\<close> returns.\<close>

fun joinWith :: "char \<Rightarrow> string list \<Rightarrow> string" where
  "joinWith sep [] = []"
| "joinWith sep [s] = s"
| "joinWith sep (s # t # ss) = s @ sep # joinWith sep (t # ss)"

text \<open>\<^verbatim>\<open>segments.join("/")\<close>.\<close>

fun joinSlash :: "string list \<Rightarrow> string" where
  "joinSlash [] = []"
| "joinSlash [s] = s"
| "joinSlash (s # t # ss) = s @ ''/'' @ joinSlash (t # ss)"

section \<open>Href candidate builder\<close>

text \<open>
  \<^verbatim>\<open>buildHrefCandidates\<close> (page.tsx, lines 231 to 243): the ordered list of href variants
  to look up for a synced link.
\<close>

definition buildHrefCandidates :: "string \<Rightarrow> string list" where
  "buildHrefCandidates path =
     (if endsWith path ''.md'' then [path, sliceEnd path 3 @ ''.mdx'']
      else if endsWith path ''.mdx'' then [path]
      else if endsWith path ''/'' then
        (let noSlash = sliceEnd path 1 in [noSlash @ ''.mdx'', path @ ''index.mdx''])
      else [path])"

section \<open>Href resolver\<close>

text \<open>
  The test \<^verbatim>\<open>/^[a-z][a-z\d+.-]*:/i.test(href)\<close>. Without the Unicode flag, the \<^verbatim>\<open>i\<close> flag
  makes \<^verbatim>\<open>[a-z]\<close> match the ASCII letters of both cases and nothing else. The colon is not
  in the class of the starred part, so the expression matches exactly when the first
  character is a letter and the first character after it that is outside the class is a
  colon.
\<close>

definition isAsciiLetter :: "char \<Rightarrow> bool" where
  "isAsciiLetter c \<longleftrightarrow>
     c \<in> set ''abcdefghijklmnopqrstuvwxyzABCDEFGHIJKLMNOPQRSTUVWXYZ''"

definition isSchemeChar :: "char \<Rightarrow> bool" where
  "isSchemeChar c \<longleftrightarrow> isAsciiLetter c \<or> c \<in> set ''0123456789+.-''"

fun hasSchemePrefix :: "string \<Rightarrow> bool" where
  "hasSchemePrefix [] = False"
| "hasSchemePrefix (c # cs) =
     (isAsciiLetter c \<and>
      (case dropWhile isSchemeChar cs of [] \<Rightarrow> False | d # ds \<Rightarrow> d = CHR '':''))"

text \<open>The guard of \<^verbatim>\<open>resolveInternalHref\<close> (lines 256 to 262): hrefs that are not relative.\<close>

definition isNonRelative :: "string \<Rightarrow> bool" where
  "isNonRelative href \<longleftrightarrow>
     startsWith href ''/'' \<or> startsWith href ''#'' \<or> hasSchemePrefix href"

text \<open>Lines 265 and 266: the path, the query and the hash part of a relative href.\<close>

definition withoutHash :: "string \<Rightarrow> string" where
  "withoutHash href = firstPiece (jsSplit href (CHR ''#'') 2)"

definition hashPart :: "string \<Rightarrow> string" where
  "hashPart href = secondPiece (jsSplit href (CHR ''#'') 2)"

definition rawPath :: "string \<Rightarrow> string" where
  "rawPath href = firstPiece (jsSplit (withoutHash href) (CHR ''?'') 2)"

definition queryPart :: "string \<Rightarrow> string" where
  "queryPart href = secondPiece (jsSplit (withoutHash href) (CHR ''?'') 2)"

text \<open>Lines 267 to 269: the suffix that is appended to a resolved URL.\<close>

definition hrefSuffix :: "string \<Rightarrow> string" where
  "hrefSuffix href =
     (if queryPart href \<noteq> [] then ''?'' @ queryPart href else []) @
     (if hashPart href \<noteq> [] then ''#'' @ hashPart href else [])"

text \<open>Lines 272 to 275: the path made explicitly relative.\<close>

definition explicitBase :: "string \<Rightarrow> string" where
  "explicitBase href =
     (let p = rawPath href
      in if startsWith p ''./'' \<or> startsWith p ''../'' then p else ''./'' @ p)"

text \<open>
  The page index is an external collaborator. \<open>getPageByHref\<close> stands for
  \<^verbatim>\<open>source.getPageByHref(candidate, {dir, language})\<close> of the page being rendered: it gives
  the canonical URL \<^verbatim>\<open>target.page.url\<close> of the page found for a candidate, or \<open>None\<close>.
  The loop of lines 278 to 287 returns at the first candidate that resolves.
\<close>

fun firstResolved :: "(string \<Rightarrow> string option) \<Rightarrow> string list \<Rightarrow> string option" where
  "firstResolved getPageByHref [] = None"
| "firstResolved getPageByHref (candidate # rest) =
     (case getPageByHref candidate of
        Some url \<Rightarrow> Some url
      | None \<Rightarrow> firstResolved getPageByHref rest)"

definition resolveInternalHref :: "(string \<Rightarrow> string option) \<Rightarrow> string \<Rightarrow> string" where
  "resolveInternalHref getPageByHref href =
     (if isNonRelative href then href
      else (case firstResolved getPageByHref (buildHrefCandidates (explicitBase href)) of
              Some url \<Rightarrow> url @ hrefSuffix href
            | None \<Rightarrow> href))"

text \<open>A page index used in the examples: two pages, both with site-absolute URLs.\<close>

definition sampleIndex :: "string \<Rightarrow> string option" where
  "sampleIndex candidate =
     (if candidate = ''../setup.mdx'' then Some ''/docs/Infra/setup''
      else if candidate = ''./foo'' then Some ''/docs/foo''
      else None)"

text \<open>A page index whose URLs are relative: the page found for \<open>./a\<close> has the URL \<open>b\<close>.\<close>

definition chainIndex :: "string \<Rightarrow> string option" where
  "chainIndex candidate =
     (if candidate = ''./a'' then Some ''b''
      else if candidate = ''./b'' then Some ''c''
      else None)"

text \<open>
  The query and fragment of an href as the specification speaks of them: everything from
  the first \<open>?\<close> or \<open>#\<close> on.
\<close>

definition queryAndFragment :: "string \<Rightarrow> string" where
  "queryAndFragment href = dropWhile (\<lambda>c. c \<noteq> CHR ''?'' \<and> c \<noteq> CHR ''#'') href"

section \<open>The host of the page module\<close>

text \<open>
  The page component reads files and consults two page indexes. These collaborators are
  parameters of the model:
  \<^item> \<open>cwd\<close> is \<^verbatim>\<open>process.cwd()\<close> and \<open>pathJoin\<close> is \<^verbatim>\<open>join\<close> of Node's \<^verbatim>\<open>path\<close> module, applied
    to the list of its arguments;
  \<^item> \<open>readFile\<close> is \<^verbatim>\<open>readFile(path, "utf-8")\<close>: the content, or \<open>None\<close> when the read throws;
  \<^item> \<open>parseYaml\<close> is \<^verbatim>\<open>parse\<close> of the \<^verbatim>\<open>yaml\<close> package: the value, or \<open>None\<close> when it throws;
  \<^item> \<open>docsPageExists\<close> tells whether \<^verbatim>\<open>source.getPage(params.slug)\<close> finds a page, and
    \<open>reportPageExists\<close> whether \<^verbatim>\<open>reportsSource.getPage(reportSlug)\<close> does;
  \<^item> \<open>docsParams\<close> is \<^verbatim>\<open>source.generateParams()\<close> and \<open>reportSlugs\<close> the slugs of
    \<^verbatim>\<open>reportsSource.generateParams()\<close>.
\<close>

text \<open>
  A value as \<^verbatim>\<open>parse\<close> returns it. The entries of an object are in the order in which
  \<^verbatim>\<open>Object.keys\<close> enumerates them. Only the truthiness of a number matters to this code, so
  a number is an integer here. The value \<^verbatim>\<open>undefined\<close> is \<open>None\<close> where a property is read.
\<close>

datatype js_value =
    JNull
  | JBool bool
  | JNum int
  | JStr string
  | JArr "js_value list"
  | JObj "(string \<times> js_value) list"

text \<open>
  An entry of the parameter list. The filter of \<^verbatim>\<open>generateStaticParams\<close> rejects an entry
  that is null or undefined (\<open>NoParam\<close>), that has no \<^verbatim>\<open>slug\<close>, or whose \<^verbatim>\<open>slug\<close> is not an array.
\<close>

datatype slug_field = SlugMissing | SlugNotArray | SlugArray "string list"

datatype param = NoParam | Param slug_field "string option"

record host =
  cwd :: string
  pathJoin :: "string list \<Rightarrow> string"
  readFile :: "string \<Rightarrow> string option"
  parseYaml :: "string \<Rightarrow> js_value option"
  docsPageExists :: "string list option \<Rightarrow> bool"
  reportPageExists :: "string list \<Rightarrow> bool"
  docsParams :: "param list"
  reportSlugs :: "string list list"

section \<open>Raw source lookup\<close>

text \<open>
  The two read loops (lines 206 to 213 and 390 to 397) try the paths in order and stop at
  the first file that can be read. The state they change is the variable
  \<^verbatim>\<open>markdownContent\<close>; \<open>probed\<close> records, in order, the paths handed to \<^verbatim>\<open>readFile\<close>.
\<close>

record lookup_state =
  probed :: "string list"
  markdownContent :: string

definition initialLookup :: lookup_state where
  "initialLookup = \<lparr>probed = [], markdownContent = []\<rparr>"

fun readFirst :: "(string \<Rightarrow> string option) \<Rightarrow> string list \<Rightarrow> lookup_state \<Rightarrow> lookup_state" where
  "readFirst rf [] st = st"
| "readFirst rf (filePath # rest) st =
     (case rf filePath of
        Some content \<Rightarrow> st\<lparr>probed := probed st @ [filePath], markdownContent := content\<rparr>
      | None \<Rightarrow> readFirst rf rest (st\<lparr>probed := probed st @ [filePath]\<rparr>))"

text \<open>Lines 185 to 189. The route of the root page is \<^verbatim>\<open>undefined\<close>, here \<open>None\<close>.\<close>

definition isReportPage :: "string list option \<Rightarrow> bool" where
  "isReportPage slug =
     (case slug of
        None \<Rightarrow> False
      | Some segs \<Rightarrow> length segs \<ge> 3 \<and> segs ! 0 = ''Infra'' \<and> segs ! 1 = ''reports'')"

text \<open>Lines 200 to 204: the candidate paths of a report page.\<close>

definition reportPaths :: "host \<Rightarrow> string list \<Rightarrow> string list" where
  "reportPaths h segs =
     (let reportPath = joinSlash segs
      in [pathJoin h [cwd h, ''content/docs'', reportPath @ ''.mdx''],
          pathJoin h [cwd h, ''content/docs'', reportPath, ''index.mdx'']])"

section \<open>Route classifier\<close>

definition startsWithAny :: "string \<Rightarrow> string list \<Rightarrow> bool" where
  "startsWithAny s ps \<longleftrightarrow> list_ex (startsWith s) ps"

definition endsWithAny :: "string \<Rightarrow> string list \<Rightarrow> bool" where
  "endsWithAny s ps \<longleftrightarrow> list_ex (endsWith s) ps"

text \<open>
  The predicate handed to \<^verbatim>\<open>some\<close> (lines 308 to 322). An anchored alternation
  \<^verbatim>\<open>/^(a|b)/\<close> is a test for one of several prefixes, \<^verbatim>\<open>/_(a|b)$/\<close> for one of several
  suffixes (\<^verbatim>\<open>$\<close> without the multiline flag is the end of the string).
\<close>

definition isApiSegment :: "string \<Rightarrow> bool" where
  "isApiSegment segment \<longleftrightarrow>
     startsWith segment ''get-'' \<or>
     startsWith segment ''post-'' \<or>
     startsWith segment ''patch-'' \<or>
     startsWith segment ''delete-'' \<or>
     startsWith segment ''put-'' \<or>
     endsWithAny segment [''_get'', ''_post'', ''_patch'', ''_delete'', ''_put''] \<or>
     startsWithAny segment
       [''predict'', ''extract'', ''generate'', ''create'', ''update'', ''delete'',
        ''retrieve'', ''list'', ''destroy'', ''partial_update'', ''stats''] \<or>
     (includesStr segment ''_auth_'' \<or> includesStr segment ''authentication'') \<or>
     includesStr segment ''knowledge_panel'' \<or>
     endsWithAny segment
       [''_create'', ''_update'', ''_delete'', ''_retrieve'', ''_list'', ''_destroy'',
        ''_partial_update'', ''_stats'']"

text \<open>Lines 325 to 337: the known API path patterns.\<close>

definition isApiPath :: "string list \<Rightarrow> bool" where
  "isApiPath segs \<longleftrightarrow>
     (''Product-Opener'' \<in> set segs \<and> (''v2'' \<in> set segs \<or> ''v3'' \<in> set segs)) \<or>
     (''Open-prices'' \<in> set segs \<and>
        (''prices'' \<in> set segs \<or> ''auth'' \<in> set segs \<or> ''users'' \<in> set segs \<or>
         ''locations'' \<in> set segs \<or> ''proofs'' \<in> set segs)) \<or>
     (''Robotoff'' \<in> set segs \<and>
        (''predict'' \<in> set segs \<or> ''annotation-management'' \<in> set segs \<or>
         ''insight-management'' \<in> set segs))"

definition isApiPage :: "string list option \<Rightarrow> bool" where
  "isApiPage slug =
     (case slug of
        None \<Rightarrow> False
      | Some segs \<Rightarrow> list_ex isApiSegment segs \<or> isApiPath segs)"

text \<open>
  The conditions for an api-reference route as the specification lists them: a segment
  with an HTTP verb as prefix (\<open>get-\<close>, ...) or as suffix (\<open>_get\<close>, ...), a segment that starts
  with an action verb, a segment with an auth or knowledge-panel marker, or one of the
  namespace pairs in the route.
\<close>

definition httpVerbPrefixed :: "string \<Rightarrow> bool" where
  "httpVerbPrefixed seg \<longleftrightarrow>
     startsWithAny seg [''get-'', ''post-'', ''patch-'', ''delete-'', ''put-'']"

definition httpVerbSuffixed :: "string \<Rightarrow> bool" where
  "httpVerbSuffixed seg \<longleftrightarrow>
     endsWithAny seg [''_get'', ''_post'', ''_patch'', ''_delete'', ''_put'']"

definition actionVerbs :: "string list" where
  "actionVerbs =
     [''create'', ''update'', ''delete'', ''retrieve'', ''list'', ''destroy'',
      ''partial_update'', ''stats'']"

definition actionVerbPrefixed :: "string \<Rightarrow> bool" where
  "actionVerbPrefixed seg \<longleftrightarrow>
     startsWithAny seg ([''predict'', ''extract'', ''generate''] @ actionVerbs)"

definition actionVerbSuffixed :: "string \<Rightarrow> bool" where
  "actionVerbSuffixed seg \<longleftrightarrow> endsWithAny seg (map (\<lambda>v. ''_'' @ v) actionVerbs)"

definition hasApiMarker :: "string \<Rightarrow> bool" where
  "hasApiMarker seg \<longleftrightarrow>
     includesStr seg ''_auth_'' \<or> includesStr seg ''authentication'' \<or>
     includesStr seg ''knowledge_panel''"

definition namespacePairs :: "(string \<times> string) list" where
  "namespacePairs =
     [(''Product-Opener'', ''v2''), (''Product-Opener'', ''v3''),
      (''Open-prices'', ''prices''), (''Open-prices'', ''auth''), (''Open-prices'', ''users''),
      (''Open-prices'', ''locations''), (''Open-prices'', ''proofs''),
      (''Robotoff'', ''predict''), (''Robotoff'', ''annotation-management''),
      (''Robotoff'', ''insight-management'')]"

definition hasNamespacePair :: "string list \<Rightarrow> bool" where
  "hasNamespacePair segs \<longleftrightarrow>
     list_ex (\<lambda>(a, b). a \<in> set segs \<and> b \<in> set segs) namespacePairs"

definition listedApiReference :: "string list \<Rightarrow> bool" where
  "listedApiReference segs \<longleftrightarrow>
     list_ex (\<lambda>seg. httpVerbPrefixed seg \<or> httpVerbSuffixed seg \<or>
                     actionVerbPrefixed seg \<or> hasApiMarker seg) segs \<or>
     hasNamespacePair segs"

section \<open>Content path generator\<close>

text \<open>Line 340: \<^verbatim>\<open>params.slug?.join("/") || "index"\<close>; the empty string is falsy.\<close>

definition slugPath :: "string list option \<Rightarrow> string" where
  "slugPath slug =
     (case slug of
        None \<Rightarrow> ''index''
      | Some segs \<Rightarrow> (if joinSlash segs = [] then ''index'' else joinSlash segs))"

text \<open>Lines 342 to 381.\<close>

definition generatePaths :: "host \<Rightarrow> string list option \<Rightarrow> string \<Rightarrow> string list" where
  "generatePaths h slug basePath =
     (let paths = [pathJoin h [cwd h, ''content/docs'', basePath @ ''.mdx''],
                   pathJoin h [cwd h, ''content/docs'', basePath, ''index.mdx'']]
      in case slug of
           None \<Rightarrow> paths
         | Some segs \<Rightarrow>
             if length segs > 0 then
               (let paths1 =
                      (if length segs \<ge> 1 then
                         (let pathWithDocs = joinSlash ([segs ! 0, ''(docs)''] @ drop 1 segs)
                          in paths @
                             [pathJoin h [cwd h, ''content/docs'', pathWithDocs @ ''.mdx''],
                              pathJoin h [cwd h, ''content/docs'', pathWithDocs, ''index.mdx'']])
                       else paths)
                in if length segs \<ge> 2 then
                     (let pathWithDocs =
                            joinSlash ([segs ! 0, segs ! 1, ''(docs)''] @ drop 2 segs)
                      in paths1 @
                         [pathJoin h [cwd h, ''content/docs'', pathWithDocs @ ''.mdx''],
                          pathJoin h [cwd h, ''content/docs'', pathWithDocs, ''index.mdx'']])
                   else paths1)
             else paths)"

text \<open>Lines 383 to 388: the generated paths, and the root index for the homepage.\<close>

definition possiblePaths :: "host \<Rightarrow> string list option \<Rightarrow> string list" where
  "possiblePaths h slug =
     generatePaths h slug (slugPath slug) @
     (if slug = None \<or> slug = Some []
      then [pathJoin h [cwd h, ''content/docs'', ''index.mdx'']] else [])"

text \<open>
  The candidate list in the words of the specification. The route of a request is its
  list of segments, empty for the root. A path under the content root is tried as a
  direct file and then as a directory index; the marker segment \<open>(docs)\<close> is inserted after
  the first \<open>i\<close> segments for \<open>i\<close> from 1 up to the length of the route, and at most 2.
\<close>

definition routeOf :: "string list option \<Rightarrow> string list" where
  "routeOf slug = (case slug of None \<Rightarrow> [] | Some segs \<Rightarrow> segs)"

definition fileThenIndex :: "host \<Rightarrow> string \<Rightarrow> string list" where
  "fileThenIndex h p =
     [pathJoin h [cwd h, ''content/docs'', p @ ''.mdx''],
      pathJoin h [cwd h, ''content/docs'', p, ''index.mdx'']]"

definition withDocsMarker :: "nat \<Rightarrow> string list \<Rightarrow> string list" where
  "withDocsMarker i route = take i route @ [''(docs)''] @ drop i route"

definition rootIndex :: "host \<Rightarrow> string" where
  "rootIndex h = pathJoin h [cwd h, ''content/docs'', ''index.mdx'']"

definition injectionPoints :: "string list \<Rightarrow> nat list" where
  "injectionPoints route = [1 ..< Suc (min 2 (length route))]"

text \<open>
  The list as the specification states it, with the route itself, joined by \<open>/\<close>, for
  the direct file and the directory index.
\<close>

definition claimedPaths :: "host \<Rightarrow> string list \<Rightarrow> string list" where
  "claimedPaths h route =
     fileThenIndex h (joinSlash route) @
     concat (map (\<lambda>i. fileThenIndex h (joinSlash (withDocsMarker i route)))
                 (injectionPoints route)) @
     (if route = [] then [rootIndex h] else [])"

section \<open>The page component\<close>

text \<open>
  What the component does with the raw source: \<^verbatim>\<open>notFound()\<close> throws and ends the render;
  a report page is rendered by \<^verbatim>\<open>ReportBlogRenderer\<close>, another page by \<^verbatim>\<open>DocsPage\<close>, each with
  the markdown content the lookup left.
\<close>

datatype page_result =
    NotFound
  | ReportBlogRenderer lookup_state
  | DocsPage lookup_state

definition Page :: "host \<Rightarrow> string list option \<Rightarrow> page_result" where
  "Page h slug =
     (if isReportPage slug \<and> slug \<noteq> None then
        (let reportSlug = drop 2 (routeOf slug)
         in if \<not> reportPageExists h reportSlug then NotFound
            else ReportBlogRenderer
                   (readFirst (readFile h) (reportPaths h (routeOf slug)) initialLookup))
      else if \<not> docsPageExists h slug then NotFound
      else if \<not> isApiPage slug then
        DocsPage (readFirst (readFile h) (possiblePaths h slug) initialLookup)
      else DocsPage initialLookup)"

text \<open>
  The outcome of a lookup over a list of paths, said without the loop: the paths before
  the first readable one are probed, then that one, and its content is kept; when no
  path is readable all are probed and the content stays empty.
\<close>

definition unreadable :: "(string \<Rightarrow> string option) \<Rightarrow> string \<Rightarrow> bool" where
  "unreadable rf p \<longleftrightarrow> rf p = None"

definition firstReadable :: "(string \<Rightarrow> string option) \<Rightarrow> string list \<Rightarrow> lookup_state" where
  "firstReadable rf paths =
     \<lparr>probed = takeWhile (unreadable rf) paths @ take 1 (dropWhile (unreadable rf) paths),
      markdownContent =
        (case dropWhile (unreadable rf) paths of
           [] \<Rightarrow> []
         | p # ps \<Rightarrow> (case rf p of Some content \<Rightarrow> content | None \<Rightarrow> []))\<rparr>"

section \<open>Static parameters\<close>

text \<open>
  \<^verbatim>\<open>schemaName.toLowerCase().replace(/-/g, "_")\<close> (line 38). Among the code units below 256
  the upper-case letters are \<open>A\<close> to \<open>Z\<close> (65 to 90) and the letters from 192 to 222 without
  the multiplication sign 215; \<^verbatim>\<open>toLowerCase\<close> maps each to the code unit 32 above it, which
  is the same unit with the bit of value 32 set, and leaves every other unit as it is.
\<close>

definition toLowerChar :: "char \<Rightarrow> char" where
  "toLowerChar c =
     (let n = (of_char c :: nat)
      in if (65 \<le> n \<and> n \<le> 90) \<or> (192 \<le> n \<and> n \<le> 222 \<and> n \<noteq> 215)
         then (case c of Char b0 b1 b2 b3 b4 b5 b6 b7 \<Rightarrow> Char b0 b1 b2 b3 b4 True b6 b7)
         else c)"

definition urlName :: "string \<Rightarrow> string" where
  "urlName schemaName =
     map (\<lambda>c. if c = CHR ''-'' then CHR ''_'' else c) (map toLowerChar schemaName)"

text \<open>The errors that the \<^verbatim>\<open>try\<close> block of \<^verbatim>\<open>getSchemaPaths\<close> can raise.\<close>

datatype error = ReadError | ParseError | TypeError

text \<open>
  Reading the property \<^verbatim>\<open>components\<close> or \<^verbatim>\<open>schemas\<close> of a value that is not null: the entry
  of an object, and \<^verbatim>\<open>undefined\<close> for every other value.
\<close>

fun propOf :: "js_value \<Rightarrow> string \<Rightarrow> js_value option" where
  "propOf (JObj entries) name = map_of entries name"
| "propOf v name = None"

fun truthy :: "js_value \<Rightarrow> bool" where
  "truthy JNull = False"
| "truthy (JBool b) = b"
| "truthy (JNum n) = (n \<noteq> 0)"
| "truthy (JStr s) = (s \<noteq> [])"
| "truthy (JArr xs) = True"
| "truthy (JObj entries) = True"

text \<open>Line 34, for an \<^verbatim>\<open>apiSpec\<close> that is not null: \<^verbatim>\<open>apiSpec.components?.schemas || {}\<close>.\<close>

definition schemasOf :: "js_value \<Rightarrow> js_value" where
  "schemasOf apiSpec =
     (let schemas =
            (case propOf apiSpec ''components'' of
               None \<Rightarrow> None
             | Some JNull \<Rightarrow> None
             | Some components \<Rightarrow> propOf components ''schemas'')
      in case schemas of
           None \<Rightarrow> JObj []
         | Some v \<Rightarrow> if truthy v then v else JObj [])"

text \<open>The decimal numeral of an index, for the keys of an array or of a string.\<close>

function decimal :: "nat \<Rightarrow> string" where
  "decimal n =
     (if n < 10 then [''0123456789'' ! n]
      else decimal (n div 10) @ [''0123456789'' ! (n mod 10)])"
  by pat_completeness auto
termination
  by (relation "measure id") auto

fun objectKeys :: "js_value \<Rightarrow> error + string list" where
  "objectKeys JNull = Inl TypeError"
| "objectKeys (JObj entries) = Inr (map fst entries)"
| "objectKeys (JArr xs) = Inr (map decimal [0 ..< length xs])"
| "objectKeys (JStr s) = Inr (map decimal [0 ..< length s])"
| "objectKeys v = Inr []"

definition apiYamlPath :: "host \<Rightarrow> string" where
  "apiYamlPath h = pathJoin h [cwd h, ''ref'', ''api.yaml'']"

text \<open>Lines 30 to 35: the schema names read from the specification document.\<close>

definition schemaNames :: "host \<Rightarrow> error + string list" where
  "schemaNames h =
     (case readFile h (apiYamlPath h) of
        None \<Rightarrow> Inl ReadError
      | Some apiYamlContent \<Rightarrow>
          (case parseYaml h apiYamlContent of
             None \<Rightarrow> Inl ParseError
           | Some JNull \<Rightarrow> Inl TypeError
           | Some apiSpec \<Rightarrow> objectKeys (schemasOf apiSpec)))"

definition schemaParam :: "string \<Rightarrow> param" where
  "schemaParam name =
     Param (SlugArray [''Product-Opener'', ''api'', ''schemas'', ''schemas'', name]) (Some ''en'')"

definition schemasIndexParam :: param where
  "schemasIndexParam = Param (SlugArray [''Product-Opener'', ''api'', ''schemas'']) (Some ''en'')"

text \<open>Lines 35 to 51: the body of the \<^verbatim>\<open>try\<close> block.\<close>

definition trySchemaPaths :: "host \<Rightarrow> error + param list" where
  "trySchemaPaths h =
     (case schemaNames h of
        Inl e \<Rightarrow> Inl e
      | Inr names \<Rightarrow> Inr (schemasIndexParam # map (\<lambda>schemaName. schemaParam (urlName schemaName)) names))"

text \<open>Lines 55 to 175: the hardcoded paths of the \<^verbatim>\<open>catch\<close> block.\<close>

definition staticSchemaNames :: "string list" where
  "staticSchemaNames =
     [''product_base'', ''product_misc'', ''product_tags'', ''product_images'',
      ''product_eco_score'', ''product_ingredients'', ''product_nutrition'',
      ''product_nutriscore'', ''product_quality'', ''product_extended'',
      ''product_metadata'', ''product_knowledge_panels'', ''product_attribute_groups'',
      ''product'', ''ingredient'', ''nutrient'']"

definition fallbackSchemaPaths :: "param list" where
  "fallbackSchemaPaths =
     [Param (SlugArray [''Product-Opener'', ''api'', ''schemas'']) (Some ''en''),
      Param (SlugArray [''Product-Opener'', ''api'', ''schemas'', ''schemas'', ''product_base'']) (Some ''en''),
      Param (SlugArray [''Product-Opener'', ''api'', ''schemas'', ''schemas'', ''product_misc'']) (Some ''en''),
      Param (SlugArray [''Product-Opener'', ''api'', ''schemas'', ''schemas'', ''product_tags'']) (Some ''en''),
      Param (SlugArray [''Product-Opener'', ''api'', ''schemas'', ''schemas'', ''product_images'']) (Some ''en''),
      Param (SlugArray [''Product-Opener'', ''api'', ''schemas'', ''schemas'', ''product_eco_score'']) (Some ''en''),
      Param (SlugArray [''Product-Opener'', ''api'', ''schemas'', ''schemas'', ''product_ingredients'']) (Some ''en''),
      Param (SlugArray [''Product-Opener'', ''api'', ''schemas'', ''schemas'', ''product_nutrition'']) (Some ''en''),
      Param (SlugArray [''Product-Opener'', ''api'', ''schemas'', ''schemas'', ''product_nutriscore'']) (Some ''en''),
      Param (SlugArray [''Product-Opener'', ''api'', ''schemas'', ''schemas'', ''product_quality'']) (Some ''en''),
      Param (SlugArray [''Product-Opener'', ''api'', ''schemas'', ''schemas'', ''product_extended'']) (Some ''en''),
      Param (SlugArray [''Product-Opener'', ''api'', ''schemas'', ''schemas'', ''product_metadata'']) (Some ''en''),
      Param (SlugArray [''Product-Opener'', ''api'', ''schemas'', ''schemas'', ''product_knowledge_panels'']) (Some ''en''),
      Param (SlugArray [''Product-Opener'', ''api'', ''schemas'', ''schemas'', ''product_attribute_groups'']) (Some ''en''),
      Param (SlugArray [''Product-Opener'', ''api'', ''schemas'', ''schemas'', ''product'']) (Some ''en''),
      Param (SlugArray [''Product-Opener'', ''api'', ''schemas'', ''schemas'', ''ingredient'']) (Some ''en''),
      Param (SlugArray [''Product-Opener'', ''api'', ''schemas'', ''schemas'', ''nutrient'']) (Some ''en'')]"

definition getSchemaPaths :: "host \<Rightarrow> param list" where
  "getSchemaPaths h =
     (case trySchemaPaths h of
        Inr schemaPaths \<Rightarrow> schemaPaths
      | Inl e \<Rightarrow> fallbackSchemaPaths)"

text \<open>Lines 412 to 431.\<close>

fun validParam :: "param \<Rightarrow> bool" where
  "validParam (Param (SlugArray segs) lang) = True"
| "validParam p = False"

definition generateStaticParams :: "host \<Rightarrow> param list" where
  "generateStaticParams h =
     (let reportsParams =
            map (\<lambda>s. Param (SlugArray ([''Infra'', ''reports''] @ s)) None) (reportSlugs h);
          schemaPaths = getSchemaPaths h;
          allParams = docsParams h @ reportsParams @ schemaPaths
      in filter validParam allParams)"

text \<open>Hosts used in the examples.\<close>

definition plainJoin :: "string list \<Rightarrow> string" where
  "plainJoin parts = joinSlash parts"

definition bareHost :: host where
  "bareHost =
     \<lparr>cwd = ''/app'', pathJoin = plainJoin, readFile = (\<lambda>p. None), parseYaml = (\<lambda>c. None),
      docsPageExists = (\<lambda>s. True), reportPageExists = (\<lambda>s. True),
      docsParams = [], reportSlugs = []\<rparr>"

text \<open>A host whose specification document holds two schemas.\<close>

definition smallSpec :: js_value where
  "smallSpec =
     JObj [(''openapi'', JStr ''3.1.0''),
           (''components'',
            JObj [(''schemas'', JObj [(''Product-Base'', JObj []), (''Nutrient'', JObj [])])])]"

definition smallSpecHost :: host where
  "smallSpecHost =
     bareHost\<lparr>readFile := (\<lambda>p. if p = ''/app/ref/api.yaml'' then Some ''openapi: 3.1.0'' else None),
              parseYaml := (\<lambda>c. if c = ''openapi: 3.1.0'' then Some smallSpec else None)\<rparr>"

text \<open>A host whose specification document is the empty mapping.\<close>

definition emptySpecHost :: host where
  "emptySpecHost =
     bareHost\<lparr>readFile := (\<lambda>p. if p = ''/app/ref/api.yaml'' then Some ''{}'' else None),
              parseYaml := (\<lambda>c. if c = ''{}'' then Some (JObj []) else None)\<rparr>"

text \<open>A host with two content files.\<close>

definition docsHost :: host where
  "docsHost =
     bareHost\<lparr>readFile :=
       (\<lambda>p. if p = ''/app/content/docs/Infra/(docs)/setup.mdx'' then Some ''# Setup''
            else if p = ''/app/content/docs/Infra/reports/outage/index.mdx'' then Some ''# Outage''
            else None)\<rparr>"

section \<open>Properties of the candidate builder\<close>

lemma endsWith_append [simp]: "endsWith (stem @ p) p"
  by (simp add: endsWith_def suffix_def)

lemma sliceEnd_append: "length p = n \<Longrightarrow> sliceEnd (stem @ p) n = stem"
  by (auto simp: sliceEnd_def)

lemma endsWith_last: "endsWith s p \<Longrightarrow> p \<noteq> [] \<Longrightarrow> s \<noteq> [] \<and> last s = last p"
  by (auto simp: endsWith_def suffix_def)

lemma not_md_of_mdx [simp]: "\<not> endsWith (stem @ ''.mdx'') ''.md''"
  using endsWith_last [of "stem @ ''.mdx''" "''.md''"] by auto

lemma not_md_of_slash [simp]: "\<not> endsWith (stem @ ''/'') ''.md''"
  using endsWith_last [of "stem @ ''/''" "''.md''"] by auto

lemma not_mdx_of_slash [simp]: "\<not> endsWith (stem @ ''/'') ''.mdx''"
  using endsWith_last [of "stem @ ''/''" "''.mdx''"] by auto

text \<open>
  Claim C1. \<^verbatim>\<open>buildHrefCandidates\<close> returns the list its shape rules prescribe: a path
  \<open>stem.md\<close> gives the literal path and then \<open>stem.mdx\<close>; a path \<open>stem.mdx\<close> gives itself
  alone; a path \<open>stem/\<close> gives \<open>stem.mdx\<close> and then \<open>stem/index.mdx\<close> (the sibling file
  before the nested index, so \<open>docs/\<close> gives \<open>docs.mdx\<close> first); a path of no such shape gives
  itself alone. The three suffixes exclude each other, so the order of the checks never
  changes which rule applies.
\<close>

theorem buildHrefCandidates_shapes:
  "buildHrefCandidates (stem @ ''.md'') = [stem @ ''.md'', stem @ ''.mdx''] \<and>
   buildHrefCandidates (stem @ ''.mdx'') = [stem @ ''.mdx''] \<and>
   buildHrefCandidates (stem @ ''/'') = [stem @ ''.mdx'', stem @ ''/index.mdx''] \<and>
   (\<not> endsWith path ''.md'' \<and> \<not> endsWith path ''.mdx'' \<and> \<not> endsWith path ''/''
      \<longrightarrow> buildHrefCandidates path = [path]) \<and>
   buildHrefCandidates ''docs/'' = [''docs.mdx'', ''docs/index.mdx'']"
proof -
  have md: "buildHrefCandidates (stem @ ''.md'') = [stem @ ''.md'', stem @ ''.mdx'']"
    using sliceEnd_append [of "''.md''" 3 stem] by (simp add: buildHrefCandidates_def)
  have mdx: "buildHrefCandidates (stem @ ''.mdx'') = [stem @ ''.mdx'']"
    by (simp add: buildHrefCandidates_def)
  have slash: "buildHrefCandidates (s @ ''/'') = [s @ ''.mdx'', s @ ''/index.mdx'']" for s
    using sliceEnd_append [of "''/''" 1 s] by (simp add: buildHrefCandidates_def)
  have other: "\<not> endsWith path ''.md'' \<and> \<not> endsWith path ''.mdx'' \<and> \<not> endsWith path ''/''
      \<longrightarrow> buildHrefCandidates path = [path]"
    by (simp add: buildHrefCandidates_def)
  from md mdx slash [of stem] other slash [of "''docs''"] show ?thesis by simp
qed

theorem buildHrefCandidates_shapes_witness:
  "buildHrefCandidates ''../setup.md'' = [''../setup.md'', ''../setup.mdx''] \<and>
   \<not> endsWith ''./foo'' ''.md'' \<and> \<not> endsWith ''./foo'' ''.mdx'' \<and> \<not> endsWith ''./foo'' ''/'' \<and>
   buildHrefCandidates ''./foo'' = [''./foo'']"
proof -
  have h: "\<not> endsWith ''./foo'' ''.md'' \<and> \<not> endsWith ''./foo'' ''.mdx'' \<and> \<not> endsWith ''./foo'' ''/''"
    by (simp add: endsWith_def suffix_to_prefix)
  from buildHrefCandidates_shapes [of "''../setup''" "''./foo''"] h show ?thesis by simp
qed

section \<open>Properties of the href resolver\<close>

text \<open>
  \<open>splitOn\<close> cuts at every separator: no piece holds one, and the pieces joined by the
  separator are the string again. So \<open>firstPiece\<close> is always applied to a list that is
  not empty.
\<close>

lemma splitOn_nonempty: "splitOn sep s \<noteq> []"
  by (induction s) (auto simp: Let_def)

lemma splitOn_no_sep: "sep \<notin> set s \<Longrightarrow> splitOn sep s = [s]"
  by (induction s) auto

lemma splitOn_append_sep: "sep \<notin> set a \<Longrightarrow> splitOn sep (a @ sep # b) = a # splitOn sep b"
  by (induction a) auto

lemma splitOn_pieces: "p \<in> set (splitOn sep s) \<Longrightarrow> sep \<notin> set p"
proof (induction s arbitrary: p)
  case Nil
  then show ?case by simp
next
  case (Cons c cs)
  then show ?case
    using splitOn_nonempty [of sep cs]
    by (cases "splitOn sep cs") (auto simp: Let_def split: if_splits)
qed

lemma splitOn_join: "joinWith sep (splitOn sep s) = s"
proof (induction s)
  case Nil
  then show ?case by simp
next
  case (Cons c cs)
  then show ?case
    using splitOn_nonempty [of sep cs]
    by (cases "splitOn sep cs"; cases "tl (splitOn sep cs)") (auto simp: Let_def)
qed

lemma firstResolved_None:
  "\<forall>c \<in> set cs. g c = None \<Longrightarrow> firstResolved g cs = None"
  by (induction cs) auto

lemma firstResolved_Some:
  "firstResolved g cs = Some url \<Longrightarrow> \<exists>c \<in> set cs. g c = Some url"
  by (induction cs) (auto split: option.splits)

lemma not_schemeChar_colon: "\<not> isSchemeChar (CHR '':'')"
  by (simp add: isSchemeChar_def isAsciiLetter_def)

text \<open>
  \<open>hasSchemePrefix\<close> accepts the language of the regular expression: a letter, any number
  of scheme characters, a colon, and anything after it.
\<close>

lemma hasSchemePrefix_iff:
  "hasSchemePrefix href \<longleftrightarrow>
     (\<exists>c body rest. href = c # body @ CHR '':'' # rest \<and> isAsciiLetter c \<and>
        list_all isSchemeChar body)"
proof
  assume "hasSchemePrefix href"
  then obtain c cs where href: "href = c # cs" and c: "isAsciiLetter c"
    and d: "case dropWhile isSchemeChar cs of [] \<Rightarrow> False | d # ds \<Rightarrow> d = CHR '':''"
    by (cases href) auto
  from d obtain ds where ds: "dropWhile isSchemeChar cs = CHR '':'' # ds"
    by (auto split: list.splits)
  have "cs = takeWhile isSchemeChar cs @ CHR '':'' # ds"
    using takeWhile_dropWhile_id [of isSchemeChar cs] ds by simp
  moreover have "list_all isSchemeChar (takeWhile isSchemeChar cs)"
    by (simp add: list_all_iff) (meson set_takeWhileD)
  ultimately show "\<exists>c body rest. href = c # body @ CHR '':'' # rest \<and> isAsciiLetter c \<and>
      list_all isSchemeChar body"
    using href c by blast
next
  assume "\<exists>c body rest. href = c # body @ CHR '':'' # rest \<and> isAsciiLetter c \<and>
      list_all isSchemeChar body"
  then obtain c body rest where href: "href = c # body @ CHR '':'' # rest"
    and c: "isAsciiLetter c" and body: "list_all isSchemeChar body"
    by blast
  have "dropWhile isSchemeChar (body @ CHR '':'' # rest) = CHR '':'' # rest"
    using body not_schemeChar_colon by (simp add: dropWhile_append list_all_iff)
  then show "hasSchemePrefix href"
    using href c by simp
qed

lemma hasSchemePrefix_append: "hasSchemePrefix u \<Longrightarrow> hasSchemePrefix (u @ s)"
  unfolding hasSchemePrefix_iff by (metis append_Cons append_assoc)

lemma isNonRelative_append: "isNonRelative u \<Longrightarrow> isNonRelative (u @ s)"
  by (auto simp: isNonRelative_def startsWith_def hasSchemePrefix_append)

lemmas href_eval = resolveInternalHref_def isNonRelative_def startsWith_def hrefSuffix_def
  queryPart_def hashPart_def explicitBase_def rawPath_def withoutHash_def jsSplit_def
  firstPiece_def buildHrefCandidates_def endsWith_def suffix_to_prefix sliceEnd_def Let_def
  isAsciiLetter_def isSchemeChar_def

text \<open>
  The example of the specification: \<open>../setup.md#install\<close> resolves through the \<open>.mdx\<close>
  candidate and keeps its fragment.
\<close>

lemma resolveInternalHref_setup_example:
  "resolveInternalHref sampleIndex ''../setup.md#install'' = ''/docs/Infra/setup#install''"
  by (simp add: href_eval sampleIndex_def)

text \<open>
  Claim C2. \<^verbatim>\<open>resolveInternalHref\<close> returns its input unchanged (1) for every href that
  starts with \<open>/\<close>, starts with \<open>#\<close> or has a scheme prefix, and (2) for every href none of
  whose candidates resolves in the page index.
\<close>

theorem resolveInternalHref_unchanged:
  "(startsWith href ''/'' \<or> startsWith href ''#'' \<or> hasSchemePrefix href
      \<longrightarrow> resolveInternalHref getPageByHref href = href) \<and>
   ((\<forall>candidate \<in> set (buildHrefCandidates (explicitBase href)).
        getPageByHref candidate = None)
      \<longrightarrow> resolveInternalHref getPageByHref href = href)"
  by (simp add: resolveInternalHref_def isNonRelative_def firstResolved_None)

theorem resolveInternalHref_unchanged_witness:
  "hasSchemePrefix ''https://world.openfoodfacts.org/'' \<and>
   resolveInternalHref sampleIndex ''https://world.openfoodfacts.org/'' =
     ''https://world.openfoodfacts.org/'' \<and>
   \<not> isNonRelative ''missing.md?x=1#y'' \<and>
   buildHrefCandidates (explicitBase ''missing.md?x=1#y'') = [''./missing.md'', ''./missing.mdx''] \<and>
   sampleIndex ''./missing.md'' = None \<and> sampleIndex ''./missing.mdx'' = None \<and>
   resolveInternalHref sampleIndex ''missing.md?x=1#y'' = ''missing.md?x=1#y''"
proof -
  have scheme: "hasSchemePrefix ''https://world.openfoodfacts.org/''"
    by (simp add: isAsciiLetter_def isSchemeChar_def)
  have rel: "\<not> isNonRelative ''missing.md?x=1#y''"
    by (simp add: isNonRelative_def startsWith_def isAsciiLetter_def isSchemeChar_def)
  have cands: "buildHrefCandidates (explicitBase ''missing.md?x=1#y'') =
      [''./missing.md'', ''./missing.mdx'']"
    by (simp add: href_eval)
  have none: "sampleIndex ''./missing.md'' = None \<and> sampleIndex ''./missing.mdx'' = None"
    by (simp add: sampleIndex_def)
  from none cands
  have all: "\<forall>candidate \<in> set (buildHrefCandidates (explicitBase ''missing.md?x=1#y'')).
      sampleIndex candidate = None"
    by simp
  from resolveInternalHref_unchanged [of "''https://world.openfoodfacts.org/''" sampleIndex] scheme
  have one: "resolveInternalHref sampleIndex ''https://world.openfoodfacts.org/'' =
      ''https://world.openfoodfacts.org/''"
    by blast
  from resolveInternalHref_unchanged [of "''missing.md?x=1#y''" sampleIndex] all
  have two: "resolveInternalHref sampleIndex ''missing.md?x=1#y'' = ''missing.md?x=1#y''"
    by blast
  from scheme one rel cands none two show ?thesis by blast
qed

text \<open>
  The example of the specification for the query and the fragment: \<open>foo?x=1#y\<close> resolves
  to the canonical URL followed by \<open>?x=1#y\<close>.
\<close>

lemma resolveInternalHref_query_example:
  "resolveInternalHref sampleIndex ''foo?x=1#y'' = ''/docs/foo?x=1#y''"
  by (simp add: href_eval sampleIndex_def)

text \<open>
  Claim C3. The resolver is to carry the query and the fragment of a relative href through
  unchanged. It takes them from \<^verbatim>\<open>split("#", 2)\<close> and \<^verbatim>\<open>split("?", 2)\<close>, which keep the
  first two pieces and drop the others. So for the href \<open>foo?x=1?y=2\<close>, whose query is
  \<open>x=1?y=2\<close>, the resolved link is \<open>/docs/foo?x=1\<close>: it does not end with the query and
  fragment of the input.
\<close>

theorem resolveInternalHref_truncates_query:
  "resolveInternalHref sampleIndex ''foo?x=1?y=2'' = ''/docs/foo?x=1'' \<and>
   queryAndFragment ''foo?x=1?y=2'' = ''?x=1?y=2'' \<and>
   \<not> endsWith (resolveInternalHref sampleIndex ''foo?x=1?y=2'')
        (queryAndFragment ''foo?x=1?y=2'')"
  by (simp add: href_eval sampleIndex_def queryAndFragment_def)

text \<open>The same loss for a fragment that holds a second \<open>#\<close>, and for an empty fragment.\<close>

lemma resolveInternalHref_truncates_fragment:
  "resolveInternalHref sampleIndex ''foo#a#b'' = ''/docs/foo#a'' \<and>
   resolveInternalHref sampleIndex ''foo?#y'' = ''/docs/foo#y''"
  by (simp add: href_eval sampleIndex_def)

text \<open>
  Where the code does carry the suffix through: an href made of a path without \<open>?\<close> and
  \<open>#\<close>, then nothing or \<open>?\<close> and a non-empty query without \<open>?\<close> and \<open>#\<close>, then nothing or
  \<open>#\<close> and a non-empty fragment without \<open>#\<close>. For such an href the path part is the path
  and the appended suffix is the query and fragment, so the result ends with them.
\<close>

lemma hrefSuffix_plain:
  assumes "CHR ''?'' \<notin> set path" and "CHR ''#'' \<notin> set path"
    and "q = [] \<or> (\<exists>q'. q = CHR ''?'' # q' \<and> q' \<noteq> [] \<and> CHR ''?'' \<notin> set q' \<and> CHR ''#'' \<notin> set q')"
    and "f = [] \<or> (\<exists>f'. f = CHR ''#'' # f' \<and> f' \<noteq> [] \<and> CHR ''#'' \<notin> set f')"
  shows "rawPath (path @ q @ f) = path \<and> hrefSuffix (path @ q @ f) = q @ f"
proof -
  have nq: "CHR ''#'' \<notin> set (path @ q)"
    using assms by auto
  have wh: "withoutHash (path @ q @ f) = path @ q \<and> hashPart (path @ q @ f) = drop 1 f"
  proof (cases f)
    case Nil
    then show ?thesis
      using nq by (simp add: withoutHash_def hashPart_def jsSplit_def firstPiece_def splitOn_no_sep)
  next
    case (Cons c f')
    with assms(4) have c: "c = CHR ''#''" and f': "CHR ''#'' \<notin> set f'" by auto
    have "splitOn (CHR ''#'') ((path @ q) @ CHR ''#'' # f') = (path @ q) # [f']"
      using splitOn_append_sep [of "CHR ''#''" "path @ q" f'] splitOn_no_sep [of "CHR ''#''" f'] nq f'
      by simp
    then show ?thesis
      using Cons c by (simp add: withoutHash_def hashPart_def jsSplit_def firstPiece_def)
  qed
  have rq: "firstPiece (jsSplit (path @ q) (CHR ''?'') 2) = path \<and>
      secondPiece (jsSplit (path @ q) (CHR ''?'') 2) = drop 1 q"
  proof (cases q)
    case Nil
    then show ?thesis
      using assms(1) by (simp add: jsSplit_def firstPiece_def splitOn_no_sep)
  next
    case (Cons c q')
    with assms(3) have c: "c = CHR ''?''" and q': "CHR ''?'' \<notin> set q'" by auto
    have "splitOn (CHR ''?'') (path @ CHR ''?'' # q') = path # [q']"
      using splitOn_append_sep [of "CHR ''?''" path q'] splitOn_no_sep [of "CHR ''?''" q'] assms(1) q'
      by simp
    then show ?thesis
      using Cons c by (simp add: jsSplit_def firstPiece_def)
  qed
  from wh rq have r: "rawPath (path @ q @ f) = path" and qp: "queryPart (path @ q @ f) = drop 1 q"
    by (simp_all add: rawPath_def queryPart_def)
  have "hrefSuffix (path @ q @ f) = q @ f"
    using assms(3,4) wh qp by (auto simp: hrefSuffix_def)
  with r show ?thesis by simp
qed

lemma resolveInternalHref_keeps_plain_suffix:
  assumes "CHR ''?'' \<notin> set path" and "CHR ''#'' \<notin> set path"
    and "q = [] \<or> (\<exists>q'. q = CHR ''?'' # q' \<and> q' \<noteq> [] \<and> CHR ''?'' \<notin> set q' \<and> CHR ''#'' \<notin> set q')"
    and "f = [] \<or> (\<exists>f'. f = CHR ''#'' # f' \<and> f' \<noteq> [] \<and> CHR ''#'' \<notin> set f')"
  shows "endsWith (resolveInternalHref getPageByHref (path @ q @ f)) (q @ f)"
proof -
  have s: "hrefSuffix (path @ q @ f) = q @ f"
    using hrefSuffix_plain [OF assms] by simp
  show ?thesis
  proof (cases "firstResolved getPageByHref (buildHrefCandidates (explicitBase (path @ q @ f)))")
    case None
    then have "resolveInternalHref getPageByHref (path @ q @ f) = path @ q @ f"
      by (simp add: resolveInternalHref_def)
    then show ?thesis by (simp add: endsWith_def suffix_def)
  next
    case (Some url)
    then have "resolveInternalHref getPageByHref (path @ q @ f) = path @ q @ f \<or>
        resolveInternalHref getPageByHref (path @ q @ f) = url @ q @ f"
      by (simp add: resolveInternalHref_def s)
    then show ?thesis by (auto simp: endsWith_def suffix_def)
  qed
qed

text \<open>So the example \<open>foo?x=1#y\<close> keeps its suffix with every page index.\<close>

lemma resolveInternalHref_query_example_any_index:
  "endsWith (resolveInternalHref getPageByHref ''foo?x=1#y'') ''?x=1#y''"
  using resolveInternalHref_keeps_plain_suffix [of "''foo''" "''?x=1''" "''#y''" getPageByHref]
  by simp

text \<open>
  Claim C4, as stated, fails: with a page index whose URLs are relative, the URL that an
  href resolves to can itself resolve to another page. Here \<open>a\<close> resolves to \<open>b\<close>, and \<open>b\<close>
  resolves to \<open>c\<close>.
\<close>

theorem resolveInternalHref_not_idempotent:
  "\<not> isNonRelative ''a'' \<and>
   resolveInternalHref chainIndex ''a'' = ''b'' \<and>
   resolveInternalHref chainIndex (resolveInternalHref chainIndex ''a'') = ''c'' \<and>
   resolveInternalHref chainIndex (resolveInternalHref chainIndex ''a'') \<noteq>
     resolveInternalHref chainIndex ''a''"
  by (simp add: href_eval chainIndex_def)

text \<open>
  Claim C4, amended. When every URL that the page index returns is itself not relative
  (it starts with \<open>/\<close>, as a site-absolute canonical URL does, or with \<open>#\<close>, or has a scheme
  prefix), resolving is idempotent for every href.
\<close>

theorem resolveInternalHref_idempotent:
  assumes "\<forall>candidate url. getPageByHref candidate = Some url \<longrightarrow> isNonRelative url"
  shows "resolveInternalHref getPageByHref (resolveInternalHref getPageByHref href) =
         resolveInternalHref getPageByHref href"
proof (cases "isNonRelative href")
  case True
  then show ?thesis by (simp add: resolveInternalHref_def)
next
  case False
  show ?thesis
  proof (cases "firstResolved getPageByHref (buildHrefCandidates (explicitBase href))")
    case None
    with False have "resolveInternalHref getPageByHref href = href"
      by (simp add: resolveInternalHref_def)
    then show ?thesis by simp
  next
    case (Some url)
    with False have r: "resolveInternalHref getPageByHref href = url @ hrefSuffix href"
      by (simp add: resolveInternalHref_def)
    from Some assms have "isNonRelative url"
      using firstResolved_Some by blast
    then have "isNonRelative (url @ hrefSuffix href)"
      by (rule isNonRelative_append)
    then have "resolveInternalHref getPageByHref (url @ hrefSuffix href) = url @ hrefSuffix href"
      by (simp add: resolveInternalHref_def)
    with r show ?thesis by simp
  qed
qed

theorem resolveInternalHref_idempotent_witness:
  "resolveInternalHref sampleIndex ''../setup.md#install'' = ''/docs/Infra/setup#install'' \<and>
   resolveInternalHref sampleIndex (resolveInternalHref sampleIndex ''../setup.md#install'') =
     resolveInternalHref sampleIndex ''../setup.md#install''"
proof -
  have urls: "\<forall>candidate url. sampleIndex candidate = Some url \<longrightarrow> isNonRelative url"
    by (auto simp: sampleIndex_def isNonRelative_def startsWith_def split: if_splits)
  have "resolveInternalHref sampleIndex ''../setup.md#install'' = ''/docs/Infra/setup#install''"
    by (simp add: href_eval sampleIndex_def)
  with resolveInternalHref_idempotent [OF urls, of "''../setup.md#install''"]
  show ?thesis by simp
qed

section \<open>Properties of the raw source lookup\<close>

lemma readFirst_gen:
  "readFirst rf paths st =
     st\<lparr>probed := probed st @ takeWhile (unreadable rf) paths @
                      take 1 (dropWhile (unreadable rf) paths),
        markdownContent :=
          (case dropWhile (unreadable rf) paths of
             [] \<Rightarrow> markdownContent st
           | p # ps \<Rightarrow> (case rf p of Some content \<Rightarrow> content | None \<Rightarrow> []))\<rparr>"
proof (induction paths arbitrary: st)
  case Nil
  show ?case by simp
next
  case (Cons p ps)
  show ?case
  proof (cases "rf p")
    case None
    then have u: "unreadable rf p" by (simp add: unreadable_def)
    show ?thesis
      using None u
      by (cases "dropWhile (unreadable rf) ps") (simp_all add: Cons.IH del: dropWhile_eq_Nil_conv)
  next
    case (Some c)
    then have u: "\<not> unreadable rf p" by (simp add: unreadable_def)
    show ?thesis
      using Some u by simp
  qed
qed

lemma readFirst_firstReadable:
  "readFirst rf paths initialLookup = firstReadable rf paths"
  by (cases "dropWhile (unreadable rf) paths")
    (simp_all add: readFirst_gen firstReadable_def initialLookup_def del: dropWhile_eq_Nil_conv)

lemma slugPath_routeOf:
  "slugPath slug =
     (if joinSlash (routeOf slug) = [] then ''index'' else joinSlash (routeOf slug))"
  by (cases slug) (simp_all add: slugPath_def routeOf_def)

lemma possiblePaths_spec:
  "possiblePaths h slug =
     fileThenIndex h (slugPath slug) @
     concat (map (\<lambda>i. fileThenIndex h (joinSlash (withDocsMarker i (routeOf slug))))
                 (injectionPoints (routeOf slug))) @
     (if routeOf slug = [] then [rootIndex h] else [])"
proof (cases slug)
  case None
  then show ?thesis
    by (simp add: possiblePaths_def generatePaths_def fileThenIndex_def routeOf_def
        injectionPoints_def rootIndex_def)
next
  case (Some segs)
  show ?thesis
  proof (cases segs)
    case Nil
    with Some show ?thesis
      by (simp add: possiblePaths_def generatePaths_def fileThenIndex_def routeOf_def
        injectionPoints_def rootIndex_def)
  next
    case (Cons a rest)
    show ?thesis
    proof (cases rest)
      case Nil
      with Some Cons show ?thesis
        by (simp add: possiblePaths_def generatePaths_def fileThenIndex_def routeOf_def
          injectionPoints_def rootIndex_def withDocsMarker_def Let_def)
    next
      case (Cons b rest')
      have up: "[1 ..< Suc 2] = [1, 2]" by (simp add: upt_rec)
      from Some \<open>segs = a # rest\<close> Cons show ?thesis
        by (simp add: possiblePaths_def generatePaths_def fileThenIndex_def routeOf_def
          injectionPoints_def rootIndex_def withDocsMarker_def Let_def up)
    qed
  qed
qed

lemma possiblePaths_root_last:
  "routeOf slug = [] \<Longrightarrow> last (possiblePaths h slug) = rootIndex h"
  by (cases slug) (auto simp: possiblePaths_def routeOf_def rootIndex_def)

lemmas path_eval = possiblePaths_def generatePaths_def slugPath_def routeOf_def rootIndex_def
  bareHost_def plainJoin_def Let_def

text \<open>A route of three segments: the marker is inserted after the first and after the second.\<close>

lemma possiblePaths_three_segments:
  "possiblePaths bareHost (Some [''Product-Opener'', ''api'', ''intro'']) =
     [''/app/content/docs/Product-Opener/api/intro.mdx'',
      ''/app/content/docs/Product-Opener/api/intro/index.mdx'',
      ''/app/content/docs/Product-Opener/(docs)/api/intro.mdx'',
      ''/app/content/docs/Product-Opener/(docs)/api/intro/index.mdx'',
      ''/app/content/docs/Product-Opener/api/(docs)/intro.mdx'',
      ''/app/content/docs/Product-Opener/api/(docs)/intro/index.mdx'']"
  by (simp add: path_eval)

text \<open>
  Claim C5, as stated, fails at the root route. Read on the route, the direct file and
  the directory index of the empty route are \<open>content/docs/.mdx\<close> and
  \<open>content/docs//index.mdx\<close>; the code takes \<open>index\<close> for the path of the root route (line
  340) and tries \<open>content/docs/index.mdx\<close> and \<open>content/docs/index/index.mdx\<close>.
\<close>

theorem possiblePaths_root_not_claimed:
  "possiblePaths bareHost None =
     [''/app/content/docs/index.mdx'', ''/app/content/docs/index/index.mdx'',
      ''/app/content/docs/index.mdx''] \<and>
   claimedPaths bareHost [] =
     [''/app/content/docs/.mdx'', ''/app/content/docs//index.mdx'',
      ''/app/content/docs/index.mdx''] \<and>
   possiblePaths bareHost None \<noteq> claimedPaths bareHost []"
  by (simp add: path_eval claimedPaths_def fileThenIndex_def injectionPoints_def)

text \<open>
  Claim C5, amended. For every route the candidate paths are, in this order: the direct
  file and the directory index of the route's path under the content root, where the path
  of a route is its segments joined by \<open>/\<close>, and \<open>index\<close> where that is empty (as for the
  root route); for the injection points 1 and (when the route has at least two segments)
  2, the direct file and the directory index of the route with the marker segment
  \<open>(docs)\<close> inserted after that many segments; and, for the root route, the root index
  \<open>content/docs/index.mdx\<close>, so that the list of the root route ends with it. So for every
  route whose path is not empty the list is the one the specification states.
\<close>

theorem possiblePaths_order:
  "possiblePaths h slug =
     fileThenIndex h
       (if joinSlash (routeOf slug) = [] then ''index'' else joinSlash (routeOf slug)) @
     concat (map (\<lambda>i. fileThenIndex h (joinSlash (withDocsMarker i (routeOf slug))))
                 (injectionPoints (routeOf slug))) @
     (if routeOf slug = [] then [rootIndex h] else []) \<and>
   (routeOf slug = [] \<longrightarrow> last (possiblePaths h slug) = rootIndex h) \<and>
   (joinSlash (routeOf slug) \<noteq> [] \<longrightarrow> possiblePaths h slug = claimedPaths h (routeOf slug))"
proof (intro conjI)
  show "possiblePaths h slug =
     fileThenIndex h
       (if joinSlash (routeOf slug) = [] then ''index'' else joinSlash (routeOf slug)) @
     concat (map (\<lambda>i. fileThenIndex h (joinSlash (withDocsMarker i (routeOf slug))))
                 (injectionPoints (routeOf slug))) @
     (if routeOf slug = [] then [rootIndex h] else [])"
    using possiblePaths_spec [of h slug] by (simp only: slugPath_routeOf)
  show "routeOf slug = [] \<longrightarrow> last (possiblePaths h slug) = rootIndex h"
    using possiblePaths_root_last [of slug h] by (rule impI)
  show "joinSlash (routeOf slug) \<noteq> [] \<longrightarrow> possiblePaths h slug = claimedPaths h (routeOf slug)"
    using possiblePaths_spec [of h slug]
    by (simp add: slugPath_routeOf claimedPaths_def)
qed

theorem possiblePaths_order_witness:
  "routeOf None = [] \<and>
   possiblePaths bareHost None =
     [''/app/content/docs/index.mdx'', ''/app/content/docs/index/index.mdx'',
      ''/app/content/docs/index.mdx''] \<and>
   last (possiblePaths bareHost None) = ''/app/content/docs/index.mdx'' \<and>
   joinSlash (routeOf (Some [''Product-Opener'', ''api'', ''intro''])) \<noteq> [] \<and>
   claimedPaths bareHost [''Product-Opener'', ''api'', ''intro''] =
     [''/app/content/docs/Product-Opener/api/intro.mdx'',
      ''/app/content/docs/Product-Opener/api/intro/index.mdx'',
      ''/app/content/docs/Product-Opener/(docs)/api/intro.mdx'',
      ''/app/content/docs/Product-Opener/(docs)/api/intro/index.mdx'',
      ''/app/content/docs/Product-Opener/api/(docs)/intro.mdx'',
      ''/app/content/docs/Product-Opener/api/(docs)/intro/index.mdx''] \<and>
   possiblePaths bareHost (Some [''Product-Opener'', ''api'', ''intro'']) =
     claimedPaths bareHost [''Product-Opener'', ''api'', ''intro'']"
proof -
  have r: "routeOf None = []" by (simp add: routeOf_def)
  have i: "rootIndex bareHost = ''/app/content/docs/index.mdx''" by (simp add: path_eval)
  have p: "possiblePaths bareHost None =
     [''/app/content/docs/index.mdx'', ''/app/content/docs/index/index.mdx'',
      ''/app/content/docs/index.mdx'']"
    by (simp add: path_eval)
  from possiblePaths_order [of bareHost None] r i
  have l: "last (possiblePaths bareHost None) = ''/app/content/docs/index.mdx''" by simp
  have ro: "routeOf (Some [''Product-Opener'', ''api'', ''intro'']) =
      [''Product-Opener'', ''api'', ''intro'']"
    by (simp add: routeOf_def)
  have n: "joinSlash (routeOf (Some [''Product-Opener'', ''api'', ''intro''])) \<noteq> []"
    by (simp add: routeOf_def)
  have up: "[1 ..< Suc 2] = [1, 2]" by (simp add: upt_rec)
  have c: "claimedPaths bareHost [''Product-Opener'', ''api'', ''intro''] =
     [''/app/content/docs/Product-Opener/api/intro.mdx'',
      ''/app/content/docs/Product-Opener/api/intro/index.mdx'',
      ''/app/content/docs/Product-Opener/(docs)/api/intro.mdx'',
      ''/app/content/docs/Product-Opener/(docs)/api/intro/index.mdx'',
      ''/app/content/docs/Product-Opener/api/(docs)/intro.mdx'',
      ''/app/content/docs/Product-Opener/api/(docs)/intro/index.mdx'']"
    by (simp add: claimedPaths_def fileThenIndex_def injectionPoints_def withDocsMarker_def
        bareHost_def plainJoin_def up)
  from possiblePaths_order [of bareHost "Some [''Product-Opener'', ''api'', ''intro'']"] n
  have e: "possiblePaths bareHost (Some [''Product-Opener'', ''api'', ''intro'']) =
      claimedPaths bareHost (routeOf (Some [''Product-Opener'', ''api'', ''intro'']))"
    by blast
  from r p l n c e ro show ?thesis by simp
qed

section \<open>Properties of the route classifier\<close>

text \<open>\<open>includesStr\<close> is the test for a substring.\<close>

lemma includesStr_iff: "includesStr s p \<longleftrightarrow> (\<exists>before after. s = before @ p @ after)"
proof
  assume "includesStr s p"
  then obtain t where "suffix t s" and "prefix p t"
    by (auto simp: includesStr_def list_ex_iff in_set_suffixes)
  then show "\<exists>before after. s = before @ p @ after"
    by (auto simp: suffix_def prefix_def)
next
  assume "\<exists>before after. s = before @ p @ after"
  then obtain before after where s: "s = before @ p @ after" by blast
  have "suffix (p @ after) s" and "prefix p (p @ after)"
    by (simp_all add: s suffix_def)
  then show "includesStr s p"
    unfolding includesStr_def list_ex_iff in_set_suffixes [symmetric] by blast
qed

lemma isApiSegment_iff:
  "isApiSegment seg \<longleftrightarrow>
     httpVerbPrefixed seg \<or> httpVerbSuffixed seg \<or> actionVerbPrefixed seg \<or>
     hasApiMarker seg \<or> actionVerbSuffixed seg"
  by (auto simp: isApiSegment_def httpVerbPrefixed_def httpVerbSuffixed_def
      actionVerbPrefixed_def hasApiMarker_def actionVerbSuffixed_def actionVerbs_def
      startsWithAny_def endsWithAny_def)

lemma isApiPath_iff: "isApiPath segs \<longleftrightarrow> hasNamespacePair segs"
  by (auto simp: isApiPath_def hasNamespacePair_def namespacePairs_def)

lemma isApiPage_Some:
  "isApiPage (Some segs) \<longleftrightarrow> listedApiReference segs \<or> list_ex actionVerbSuffixed segs"
  by (auto simp: isApiPage_def listedApiReference_def isApiSegment_iff isApiPath_iff list_ex_iff)

lemma isApiPage_set:
  "set segs = set segs' \<Longrightarrow> isApiPage (Some segs) = isApiPage (Some segs')"
  by (simp add: isApiPage_def list_ex_iff isApiPath_def)

lemmas seg_eval = isApiPage_def isApiSegment_def isApiPath_def startsWithAny_def endsWithAny_def
  startsWith_def endsWith_def suffix_to_prefix includesStr_def listedApiReference_def
  httpVerbPrefixed_def httpVerbSuffixed_def actionVerbPrefixed_def actionVerbSuffixed_def
  hasApiMarker_def actionVerbs_def hasNamespacePair_def namespacePairs_def

lemma isApiPage_open_prices: "isApiPage (Some [''Open-prices'', ''prices'', ''get-list''])"
  by (simp add: isApiPage_def isApiSegment_def startsWith_def)

text \<open>
  Claim C6, as stated, fails: the code has one more rule than the claim lists. A segment
  that ends with \<open>_stats\<close> (or with \<open>_create\<close>, \<open>_update\<close>, \<open>_delete\<close>, \<open>_retrieve\<close>, \<open>_list\<close>,
  \<open>_destroy\<close>, \<open>_partial_update\<close>) makes the route an API page (lines 320 to 322), and
  the route \<open>[product_stats]\<close> meets none of the listed conditions.
\<close>

theorem isApiPage_beyond_listed:
  "isApiPage (Some [''product_stats'']) \<and> \<not> listedApiReference [''product_stats'']"
  by (simp add: seg_eval)

text \<open>
  Claim C6, amended. A route is an API page exactly when it meets one of the listed
  conditions (a segment with an HTTP verb as prefix or as suffix, a segment that starts
  with an action verb, a segment with an auth or knowledge-panel marker, a namespace
  pair anywhere in the route) or has a segment that ends with \<open>_\<close> and an action verb. The
  answer depends on the set of segments only, not on their order; the root route is not
  an API page; the route \<open>[Open-prices, prices, get-list]\<close> is one.
\<close>

theorem isApiPage_characterisation:
  "(isApiPage (Some segs) \<longleftrightarrow> listedApiReference segs \<or> list_ex actionVerbSuffixed segs) \<and>
   (set segs = set segs' \<longrightarrow> isApiPage (Some segs) = isApiPage (Some segs')) \<and>
   \<not> isApiPage None \<and>
   isApiPage (Some [''Open-prices'', ''prices'', ''get-list''])"
  using isApiPage_Some [of segs] isApiPage_set [of segs segs'] isApiPage_open_prices
  by (simp add: isApiPage_def)

theorem isApiPage_characterisation_witness:
  "set [''v3'', ''cgi'', ''Product-Opener''] = set [''Product-Opener'', ''cgi'', ''v3''] \<and>
   isApiPage (Some [''Product-Opener'', ''cgi'', ''v3'']) \<and>
   isApiPage (Some [''v3'', ''cgi'', ''Product-Opener'']) \<and>
   listedApiReference [''v3'', ''cgi'', ''Product-Opener'']"
proof -
  have s: "set [''v3'', ''cgi'', ''Product-Opener''] = set [''Product-Opener'', ''cgi'', ''v3'']"
    by auto
  have a: "isApiPage (Some [''Product-Opener'', ''cgi'', ''v3''])"
    by (simp add: isApiPage_def isApiPath_def)
  have l: "listedApiReference [''v3'', ''cgi'', ''Product-Opener'']"
    by (simp add: listedApiReference_def hasNamespacePair_def namespacePairs_def)
  from isApiPage_characterisation
    [of "[''v3'', ''cgi'', ''Product-Opener'']" "[''Product-Opener'', ''cgi'', ''v3'']"] s a
  have "isApiPage (Some [''v3'', ''cgi'', ''Product-Opener''])" by blast
  with s a l show ?thesis by blast
qed

section \<open>Properties of the page component\<close>

text \<open>
  Claim C7. For a route that is not a report route and has a page in the index: when the
  route is an API page no path is probed and the markdown content stays empty; otherwise
  the candidate paths are probed in order, up to and including the first one that can be
  read, and its content is kept. (A report route is handled before the classification,
  and a route without a page ends in \<^verbatim>\<open>notFound()\<close> before any lookup.)
\<close>

theorem isApiPage_gates_lookup:
  assumes "\<not> isReportPage slug" and "docsPageExists h slug"
  shows "(isApiPage slug \<longrightarrow> Page h slug = DocsPage \<lparr>probed = [], markdownContent = []\<rparr>) \<and>
         (\<not> isApiPage slug \<longrightarrow>
            Page h slug = DocsPage (firstReadable (readFile h) (possiblePaths h slug)))"
proof -
  have api: "isApiPage slug \<longrightarrow> Page h slug = DocsPage \<lparr>probed = [], markdownContent = []\<rparr>"
    using assms by (simp add: Page_def initialLookup_def)
  have doc: "\<not> isApiPage slug \<longrightarrow>
      Page h slug = DocsPage (firstReadable (readFile h) (possiblePaths h slug))"
    using assms by (simp add: Page_def readFirst_firstReadable)
  from api doc show ?thesis by blast
qed

theorem isApiPage_gates_lookup_witness:
  "Page docsHost (Some [''Open-prices'', ''prices'', ''get-list'']) =
     DocsPage \<lparr>probed = [], markdownContent = []\<rparr> \<and>
   Page docsHost (Some [''Infra'', ''setup'']) =
     DocsPage \<lparr>probed = [''/app/content/docs/Infra/setup.mdx'',
                         ''/app/content/docs/Infra/setup/index.mdx'',
                         ''/app/content/docs/Infra/(docs)/setup.mdx''],
               markdownContent = ''# Setup''\<rparr>"
proof -
  have r1: "\<not> isReportPage (Some [''Open-prices'', ''prices'', ''get-list''])"
    by (simp add: isReportPage_def)
  have r2: "\<not> isReportPage (Some [''Infra'', ''setup''])"
    by (simp add: isReportPage_def)
  have e: "docsPageExists docsHost slug" for slug
    by (simp add: docsHost_def bareHost_def)
  have a1: "isApiPage (Some [''Open-prices'', ''prices'', ''get-list''])"
    by (simp add: isApiPage_def isApiSegment_def startsWith_def)
  have a2: "\<not> isApiPage (Some [''Infra'', ''setup''])"
    by (simp add: seg_eval)
  have f: "firstReadable (readFile docsHost) (possiblePaths docsHost (Some [''Infra'', ''setup''])) =
      \<lparr>probed = [''/app/content/docs/Infra/setup.mdx'',
                 ''/app/content/docs/Infra/setup/index.mdx'',
                 ''/app/content/docs/Infra/(docs)/setup.mdx''],
        markdownContent = ''# Setup''\<rparr>"
    by (simp add: firstReadable_def unreadable_def docsHost_def path_eval)
  from isApiPage_gates_lookup [OF r1 e] a1
  have one: "Page docsHost (Some [''Open-prices'', ''prices'', ''get-list'']) =
     DocsPage \<lparr>probed = [], markdownContent = []\<rparr>"
    by blast
  from isApiPage_gates_lookup [OF r2 e] a2 f
  have two: "Page docsHost (Some [''Infra'', ''setup'']) =
     DocsPage \<lparr>probed = [''/app/content/docs/Infra/setup.mdx'',
                         ''/app/content/docs/Infra/setup/index.mdx'',
                         ''/app/content/docs/Infra/(docs)/setup.mdx''],
               markdownContent = ''# Setup''\<rparr>"
    by simp
  from one two show ?thesis by (rule conjI)
qed

text \<open>
  Claim C10. For a report route (at least three segments, the first \<open>Infra\<close>, the second
  \<open>reports\<close>) whose report page exists, the lookup has exactly two candidate paths, built
  from the full route with its \<open>Infra/reports\<close> prefix: the direct file \<open>a\<close> and then the
  directory index \<open>b\<close>. No path with the \<open>(docs)\<close> marker and no root index is tried. The
  first readable one gives the markdown content; when neither can be read the content
  stays empty and the page is rendered all the same.
\<close>

theorem reportPage_lookup:
  assumes "isReportPage (Some segs)" and "reportPageExists h (drop 2 segs)"
    and "a = pathJoin h [cwd h, ''content/docs'', joinSlash segs @ ''.mdx'']"
    and "b = pathJoin h [cwd h, ''content/docs'', joinSlash segs, ''index.mdx'']"
  shows "reportPaths h segs = [a, b] \<and>
     Page h (Some segs) =
       ReportBlogRenderer
         (case readFile h a of
            Some content \<Rightarrow> \<lparr>probed = [a], markdownContent = content\<rparr>
          | None \<Rightarrow>
              (case readFile h b of
                 Some content \<Rightarrow> \<lparr>probed = [a, b], markdownContent = content\<rparr>
               | None \<Rightarrow> \<lparr>probed = [a, b], markdownContent = []\<rparr>))"
  using assms
  by (simp add: Page_def routeOf_def reportPaths_def initialLookup_def Let_def split: option.splits)

theorem reportPage_lookup_witness:
  "isReportPage (Some [''Infra'', ''reports'', ''outage'']) \<and>
   Page docsHost (Some [''Infra'', ''reports'', ''outage'']) =
     ReportBlogRenderer
       \<lparr>probed = [''/app/content/docs/Infra/reports/outage.mdx'',
                  ''/app/content/docs/Infra/reports/outage/index.mdx''],
        markdownContent = ''# Outage''\<rparr> \<and>
   Page docsHost (Some [''Infra'', ''reports'', ''missing'']) =
     ReportBlogRenderer
       \<lparr>probed = [''/app/content/docs/Infra/reports/missing.mdx'',
                  ''/app/content/docs/Infra/reports/missing/index.mdx''],
        markdownContent = []\<rparr>"
proof -
  have r: "isReportPage (Some [''Infra'', ''reports'', ''outage''])"
    "isReportPage (Some [''Infra'', ''reports'', ''missing''])"
    by (simp_all add: isReportPage_def)
  have e: "reportPageExists docsHost s" for s
    by (simp add: docsHost_def bareHost_def)
  have p1: "''/app/content/docs/Infra/reports/outage.mdx'' =
      pathJoin docsHost [cwd docsHost, ''content/docs'', joinSlash [''Infra'', ''reports'', ''outage''] @ ''.mdx'']"
    "''/app/content/docs/Infra/reports/outage/index.mdx'' =
      pathJoin docsHost [cwd docsHost, ''content/docs'', joinSlash [''Infra'', ''reports'', ''outage''], ''index.mdx'']"
    by (simp_all add: docsHost_def bareHost_def plainJoin_def)
  have p2: "''/app/content/docs/Infra/reports/missing.mdx'' =
      pathJoin docsHost [cwd docsHost, ''content/docs'', joinSlash [''Infra'', ''reports'', ''missing''] @ ''.mdx'']"
    "''/app/content/docs/Infra/reports/missing/index.mdx'' =
      pathJoin docsHost [cwd docsHost, ''content/docs'', joinSlash [''Infra'', ''reports'', ''missing''], ''index.mdx'']"
    by (simp_all add: docsHost_def bareHost_def plainJoin_def)
  have rd: "readFile docsHost ''/app/content/docs/Infra/reports/outage.mdx'' = None"
    "readFile docsHost ''/app/content/docs/Infra/reports/outage/index.mdx'' = Some ''# Outage''"
    "readFile docsHost ''/app/content/docs/Infra/reports/missing.mdx'' = None"
    "readFile docsHost ''/app/content/docs/Infra/reports/missing/index.mdx'' = None"
    by (simp_all add: docsHost_def bareHost_def)
  from reportPage_lookup [OF r(1) e p1] rd
  have one: "Page docsHost (Some [''Infra'', ''reports'', ''outage'']) =
     ReportBlogRenderer
       \<lparr>probed = [''/app/content/docs/Infra/reports/outage.mdx'',
                  ''/app/content/docs/Infra/reports/outage/index.mdx''],
        markdownContent = ''# Outage''\<rparr>"
    by simp
  from reportPage_lookup [OF r(2) e p2] rd
  have two: "Page docsHost (Some [''Infra'', ''reports'', ''missing'']) =
     ReportBlogRenderer
       \<lparr>probed = [''/app/content/docs/Infra/reports/missing.mdx'',
                  ''/app/content/docs/Infra/reports/missing/index.mdx''],
        markdownContent = []\<rparr>"
    by simp
  from r(1) one two show ?thesis by blast
qed

section \<open>Properties of the static parameters\<close>

text \<open>
  \<open>urlName\<close> on an ASCII name, and on the name of the code units 196, 98, 45, 201
  (\<open>A\<close> with diaeresis, \<open>b\<close>, \<open>-\<close>, \<open>E\<close> with acute), which becomes 228, 98, 95, 233; the
  multiplication sign 215 stays.
\<close>

lemma urlName_examples:
  "urlName ''Product-Base'' = ''product_base'' \<and>
   urlName [Char False False True False False False True True, CHR ''b'', CHR ''-'',
            Char True False False True False False True True] =
     [Char False False True False False True True True, CHR ''b'', CHR ''_'',
      Char True False False True False True True True] \<and>
   urlName [Char True True True False True False True True] =
     [Char True True True False True False True True]"
  by (simp add: urlName_def toLowerChar_def)

lemma fallback_eq: "fallbackSchemaPaths = schemasIndexParam # map schemaParam staticSchemaNames"
  by (simp add: fallbackSchemaPaths_def schemasIndexParam_def schemaParam_def staticSchemaNames_def)

lemma fallback_valid: "filter validParam fallbackSchemaPaths = fallbackSchemaPaths"
  by (simp add: fallback_eq schemasIndexParam_def schemaParam_def)

lemma length_fallback: "length fallbackSchemaPaths = 17"
  by (simp add: fallbackSchemaPaths_def)

lemma getSchemaPaths_valid: "filter validParam (getSchemaPaths h) = getSchemaPaths h"
proof (cases "schemaNames h")
  case (Inl e)
  then show ?thesis
    by (simp add: getSchemaPaths_def trySchemaPaths_def fallback_valid)
next
  case (Inr names)
  then show ?thesis
    by (simp add: getSchemaPaths_def trySchemaPaths_def schemasIndexParam_def schemaParam_def
        filter_id_conv)
qed

lemma generateStaticParams_schema:
  "set (getSchemaPaths h) \<subseteq> set (generateStaticParams h) \<and>
   length (getSchemaPaths h) \<le> length (generateStaticParams h)"
proof -
  have "filter validParam (xs @ ys @ getSchemaPaths h) =
      filter validParam xs @ filter validParam ys @ getSchemaPaths h" for xs ys
    by (simp add: getSchemaPaths_valid)
  then show ?thesis
    by (auto simp: generateStaticParams_def Let_def)
qed

lemma index_in_getSchemaPaths: "schemasIndexParam \<in> set (getSchemaPaths h)"
  by (auto simp: getSchemaPaths_def trySchemaPaths_def fallback_eq split: sum.splits)

lemma schemaNames_failure:
  assumes "readFile h (apiYamlPath h) = None \<or>
     (\<exists>content. readFile h (apiYamlPath h) = Some content \<and>
        (parseYaml h content = None \<or> parseYaml h content = Some JNull))"
  shows "\<exists>e. schemaNames h = Inl e"
  using assms by (auto simp: schemaNames_def)

lemma static_subset_iff:
  "set (schemasIndexParam # map schemaParam xs) \<subseteq>
     set (schemasIndexParam # map (\<lambda>n. schemaParam (urlName n)) names)
   \<longleftrightarrow> set xs \<subseteq> urlName ` set names"
  by (auto simp: schemaParam_def schemasIndexParam_def)

text \<open>
  Claim C8. When the specification document cannot be read, cannot be parsed, or parses
  to null (so that reading its \<^verbatim>\<open>components\<close> throws), \<^verbatim>\<open>getSchemaPaths\<close> returns the
  hardcoded list of 17 routes instead of failing. The enumeration then has at least 17
  entries and holds the bare schemas-index route and every other route of the list.
\<close>

theorem generateStaticParams_fallback:
  assumes "readFile h (apiYamlPath h) = None \<or>
     (\<exists>content. readFile h (apiYamlPath h) = Some content \<and>
        (parseYaml h content = None \<or> parseYaml h content = Some JNull))"
  shows "getSchemaPaths h = fallbackSchemaPaths \<and>
         length fallbackSchemaPaths = 17 \<and>
         17 \<le> length (generateStaticParams h) \<and>
         Param (SlugArray [''Product-Opener'', ''api'', ''schemas'']) (Some ''en'')
           \<in> set (generateStaticParams h) \<and>
         set fallbackSchemaPaths \<subseteq> set (generateStaticParams h)"
proof -
  from schemaNames_failure [OF assms] obtain e where "schemaNames h = Inl e" ..
  then have g: "getSchemaPaths h = fallbackSchemaPaths"
    by (simp add: getSchemaPaths_def trySchemaPaths_def)
  have i: "Param (SlugArray [''Product-Opener'', ''api'', ''schemas'']) (Some ''en'')
      \<in> set fallbackSchemaPaths"
    by (simp add: fallbackSchemaPaths_def)
  from generateStaticParams_schema [of h] g
  have sub: "set fallbackSchemaPaths \<subseteq> set (generateStaticParams h)"
    and len: "length fallbackSchemaPaths \<le> length (generateStaticParams h)"
    by simp_all
  from g length_fallback len i sub show ?thesis by auto
qed

lemmas schema_eval = schemaNames_def apiYamlPath_def bareHost_def plainJoin_def smallSpecHost_def
  smallSpec_def schemasOf_def urlName_def toLowerChar_def getSchemaPaths_def trySchemaPaths_def
  generateStaticParams_def schemaParam_def schemasIndexParam_def Let_def

theorem generateStaticParams_fallback_witness:
  "readFile bareHost (apiYamlPath bareHost) = None \<and>
   getSchemaPaths bareHost = fallbackSchemaPaths \<and>
   length (generateStaticParams bareHost) = 17"
proof -
  have r: "readFile bareHost (apiYamlPath bareHost) = None"
    by (simp add: bareHost_def)
  then have h: "readFile bareHost (apiYamlPath bareHost) = None \<or>
     (\<exists>content. readFile bareHost (apiYamlPath bareHost) = Some content \<and>
        (parseYaml bareHost content = None \<or> parseYaml bareHost content = Some JNull))"
    by (rule disjI1)
  have "generateStaticParams bareHost = filter validParam (getSchemaPaths bareHost)"
    by (simp add: generateStaticParams_def bareHost_def)
  with generateStaticParams_fallback [OF h] fallback_valid r show ?thesis
    by simp
qed

text \<open>
  Claim C9, as stated, fails: a document that parses to a mapping is taken as it is. With a document
  that holds the two schemas \<open>Product-Base\<close> and \<open>Nutrient\<close>, and no other parameters, the
  enumeration has three entries, and the static route of \<open>product_misc\<close> is not among them.
\<close>

theorem getSchemaPaths_below_static:
  "generateStaticParams smallSpecHost =
     [schemasIndexParam, schemaParam ''product_base'', schemaParam ''nutrient''] \<and>
   length (generateStaticParams smallSpecHost) < 17 \<and>
   schemaParam ''product_misc'' \<in> set fallbackSchemaPaths \<and>
   schemaParam ''product_misc'' \<notin> set (generateStaticParams smallSpecHost)"
  by (simp add: schema_eval fallbackSchemaPaths_def)

lemma schemaNames_object:
  assumes "readFile h (apiYamlPath h) = Some content"
    and "parseYaml h content = Some (JObj entries)"
    and "map_of entries ''components'' = Some (JObj components)"
    and "map_of components ''schemas'' = Some (JObj schemas)"
  shows "schemaNames h = Inr (map fst schemas)"
  using assms by (simp add: schemaNames_def schemasOf_def)

lemma schemaNames_no_components:
  assumes "readFile h (apiYamlPath h) = Some content"
    and "parseYaml h content = Some (JObj entries)"
    and "map_of entries ''components'' = None"
  shows "schemaNames h = Inr []"
  using assms by (simp add: schemaNames_def schemasOf_def)

text \<open>
  Claim C9, amended. For every content and read outcome of the specification document
  the enumeration holds the bare schemas-index route, and every route of
  \<^verbatim>\<open>getSchemaPaths\<close>. When the document cannot be read, cannot be parsed or parses to
  null, the schema routes are the 17 static routes. When it parses to a mapping whose
  \<^verbatim>\<open>components.schemas\<close> is a mapping, the schema routes are the index route followed by one
  route for each key of that mapping, lower-cased and with \<open>-\<close> replaced by \<open>_\<close>, and the
  static routes are all among them exactly when these normalised keys include the 16
  static schema names. When it parses to a mapping without \<^verbatim>\<open>components\<close>, the index route
  is the only schema route.
\<close>

theorem getSchemaPaths_outcomes:
  "schemasIndexParam \<in> set (generateStaticParams h) \<and>
   set (getSchemaPaths h) \<subseteq> set (generateStaticParams h) \<and>
   (readFile h (apiYamlPath h) = None \<or>
    readFile h (apiYamlPath h) = Some content \<and>
      (parseYaml h content = None \<or> parseYaml h content = Some JNull)
      \<longrightarrow> getSchemaPaths h = fallbackSchemaPaths) \<and>
   (readFile h (apiYamlPath h) = Some content \<and>
    parseYaml h content = Some (JObj entries) \<and>
    map_of entries ''components'' = Some (JObj components) \<and>
    map_of components ''schemas'' = Some (JObj schemas)
      \<longrightarrow> getSchemaPaths h =
            schemasIndexParam # map (\<lambda>name. schemaParam (urlName name)) (map fst schemas) \<and>
          (set fallbackSchemaPaths \<subseteq> set (getSchemaPaths h) \<longleftrightarrow>
             set staticSchemaNames \<subseteq> urlName ` set (map fst schemas))) \<and>
   (readFile h (apiYamlPath h) = Some content \<and>
    parseYaml h content = Some (JObj entries) \<and>
    map_of entries ''components'' = None
      \<longrightarrow> getSchemaPaths h = [schemasIndexParam])"
proof -
  have sub: "set (getSchemaPaths h) \<subseteq> set (generateStaticParams h)"
    using generateStaticParams_schema [of h] by simp
  with index_in_getSchemaPaths [of h]
  have idx: "schemasIndexParam \<in> set (generateStaticParams h)" by blast
  have fail: "readFile h (apiYamlPath h) = None \<or>
      readFile h (apiYamlPath h) = Some content \<and>
        (parseYaml h content = None \<or> parseYaml h content = Some JNull)
      \<longrightarrow> getSchemaPaths h = fallbackSchemaPaths"
  proof
    assume "readFile h (apiYamlPath h) = None \<or>
      readFile h (apiYamlPath h) = Some content \<and>
        (parseYaml h content = None \<or> parseYaml h content = Some JNull)"
    then have "readFile h (apiYamlPath h) = None \<or>
      (\<exists>content. readFile h (apiYamlPath h) = Some content \<and>
        (parseYaml h content = None \<or> parseYaml h content = Some JNull))"
      by blast
    from schemaNames_failure [OF this] obtain e where "schemaNames h = Inl e" ..
    then show "getSchemaPaths h = fallbackSchemaPaths"
      by (simp add: getSchemaPaths_def trySchemaPaths_def)
  qed
  have obj: "readFile h (apiYamlPath h) = Some content \<and>
      parseYaml h content = Some (JObj entries) \<and>
      map_of entries ''components'' = Some (JObj components) \<and>
      map_of components ''schemas'' = Some (JObj schemas)
      \<longrightarrow> getSchemaPaths h =
            schemasIndexParam # map (\<lambda>name. schemaParam (urlName name)) (map fst schemas) \<and>
          (set fallbackSchemaPaths \<subseteq> set (getSchemaPaths h) \<longleftrightarrow>
             set staticSchemaNames \<subseteq> urlName ` set (map fst schemas))"
  proof
    assume a: "readFile h (apiYamlPath h) = Some content \<and>
      parseYaml h content = Some (JObj entries) \<and>
      map_of entries ''components'' = Some (JObj components) \<and>
      map_of components ''schemas'' = Some (JObj schemas)"
    then have "schemaNames h = Inr (map fst schemas)"
      using schemaNames_object [of h content entries components schemas] by blast
    then have g: "getSchemaPaths h =
        schemasIndexParam # map (\<lambda>name. schemaParam (urlName name)) (map fst schemas)"
      by (simp add: getSchemaPaths_def trySchemaPaths_def)
    have "set fallbackSchemaPaths \<subseteq> set (getSchemaPaths h) \<longleftrightarrow>
        set staticSchemaNames \<subseteq> urlName ` set (map fst schemas)"
      using static_subset_iff [of staticSchemaNames "map fst schemas"]
      by (simp only: g fallback_eq)
    with g show "getSchemaPaths h =
            schemasIndexParam # map (\<lambda>name. schemaParam (urlName name)) (map fst schemas) \<and>
          (set fallbackSchemaPaths \<subseteq> set (getSchemaPaths h) \<longleftrightarrow>
             set staticSchemaNames \<subseteq> urlName ` set (map fst schemas))"
      by (rule conjI)
  qed
  have none: "readFile h (apiYamlPath h) = Some content \<and>
      parseYaml h content = Some (JObj entries) \<and>
      map_of entries ''components'' = None
      \<longrightarrow> getSchemaPaths h = [schemasIndexParam]"
  proof
    assume "readFile h (apiYamlPath h) = Some content \<and>
      parseYaml h content = Some (JObj entries) \<and>
      map_of entries ''components'' = None"
    then have "schemaNames h = Inr []"
      using schemaNames_no_components [of h content entries] by blast
    then show "getSchemaPaths h = [schemasIndexParam]"
      by (simp add: getSchemaPaths_def trySchemaPaths_def)
  qed
  from idx sub fail obj none show ?thesis by (intro conjI)
qed

theorem getSchemaPaths_outcomes_witness:
  "readFile bareHost (apiYamlPath bareHost) = None \<and>
   getSchemaPaths bareHost = fallbackSchemaPaths \<and>
   readFile smallSpecHost (apiYamlPath smallSpecHost) = Some ''openapi: 3.1.0'' \<and>
   parseYaml smallSpecHost ''openapi: 3.1.0'' = Some smallSpec \<and>
   getSchemaPaths smallSpecHost =
     [schemasIndexParam, schemaParam ''product_base'', schemaParam ''nutrient''] \<and>
   schemasIndexParam \<in> set (generateStaticParams smallSpecHost) \<and>
   readFile emptySpecHost (apiYamlPath emptySpecHost) = Some ''{}'' \<and>
   parseYaml emptySpecHost ''{}'' = Some (JObj []) \<and>
   getSchemaPaths emptySpecHost = [schemasIndexParam]"
proof -
  have a: "readFile bareHost (apiYamlPath bareHost) = None"
    by (simp add: bareHost_def)
  have b: "readFile smallSpecHost (apiYamlPath smallSpecHost) = Some ''openapi: 3.1.0''"
    "parseYaml smallSpecHost ''openapi: 3.1.0'' = Some smallSpec"
    by (simp_all add: apiYamlPath_def bareHost_def plainJoin_def smallSpecHost_def)
  have c: "readFile emptySpecHost (apiYamlPath emptySpecHost) = Some ''{}''"
    "parseYaml emptySpecHost ''{}'' = Some (JObj [])"
    by (simp_all add: apiYamlPath_def bareHost_def plainJoin_def emptySpecHost_def)
  have s: "smallSpec =
      JObj [(''openapi'', JStr ''3.1.0''),
            (''components'',
             JObj [(''schemas'', JObj [(''Product-Base'', JObj []), (''Nutrient'', JObj [])])])]"
    by (simp add: smallSpec_def)
  have u: "urlName ''Product-Base'' = ''product_base''" "urlName ''Nutrient'' = ''nutrient''"
    by (simp_all add: urlName_def toLowerChar_def)
  from getSchemaPaths_outcomes [of bareHost "[]" "[]" "[]" "[]"] a
  have one: "getSchemaPaths bareHost = fallbackSchemaPaths" by blast
  from getSchemaPaths_outcomes
    [of smallSpecHost "''openapi: 3.1.0''"
        "[(''openapi'', JStr ''3.1.0''),
          (''components'',
           JObj [(''schemas'', JObj [(''Product-Base'', JObj []), (''Nutrient'', JObj [])])])]"
        "[(''schemas'', JObj [(''Product-Base'', JObj []), (''Nutrient'', JObj [])])]"
        "[(''Product-Base'', JObj []), (''Nutrient'', JObj [])]"] b s u
  have two: "getSchemaPaths smallSpecHost =
     [schemasIndexParam, schemaParam ''product_base'', schemaParam ''nutrient''] \<and>
     schemasIndexParam \<in> set (generateStaticParams smallSpecHost)"
    by simp
  from getSchemaPaths_outcomes [of emptySpecHost "''{}''" "[]" "[]" "[]"] c
  have three: "getSchemaPaths emptySpecHost = [schemasIndexParam]"
    by simp
  from a one b two c three show ?thesis by simp
qed

end
